theory Spec2Isabelle
  imports
    Complex_Main
    "HOL-Library.Char_ord"
    "HOL-Library.List_Lexorder"
    "HOL-Library.Product_Lexorder"
    "HOL-Library.Multiset"
begin

section \<open>The BTCP monitor: data model\<close>

text \<open>
  The embedding follows \<^verbatim>\<open>src/monitor.py\<close>. Python strings are \<^typ>\<open>string\<close>,
  Python ints are \<^typ>\<open>int\<close>, the float \<^verbatim>\<open>response_time\<close> is a \<^typ>\<open>real\<close> (it is
  only stored and compared with 0), and a \<^verbatim>\<open>datetime\<close> is an \<^typ>\<open>int\<close> counting
  microseconds, so that the difference of two of them is a \<^verbatim>\<open>timedelta\<close> in microseconds.
  Logging is left out everywhere: it changes no state that the program reads.
\<close>

subsection \<open>Configuration (\<^verbatim>\<open>CONFIG\<close>)\<close>

record Config =
  CHECK_INTERVAL :: int
  ALERT_ON_RECOVERY :: bool
  CONSECUTIVE_FAILURES :: int
  RUN_ONCE :: bool

text \<open>
  The global dictionary of the source. \<^verbatim>\<open>CHECK_INTERVAL\<close> and \<^verbatim>\<open>RUN_ONCE\<close> come from the
  process environment and are the arguments here; the two alert settings are literals of the
  source.
\<close>

definition CONFIG :: "int \<Rightarrow> bool \<Rightarrow> Config" where
  "CONFIG check_interval run_once =
     \<lparr>CHECK_INTERVAL = check_interval, ALERT_ON_RECOVERY = True,
      CONSECUTIVE_FAILURES = 2, RUN_ONCE = run_once\<rparr>"

subsection \<open>Targets\<close>

datatype Status = UP | DOWN | UNKNOWN

text \<open>
  The \<^verbatim>\<open>config\<close> dictionary of a target. \<^verbatim>\<open>_init_targets\<close> builds it with some of six
  keys, each with a fixed value type; an absent key is \<^const>\<open>None\<close>.
\<close>

record config_dict =
  cfg_host :: "string option"
  cfg_port :: "int option"
  cfg_url :: "string option"
  cfg_expected_status :: "int option"
  cfg_container :: "string option"
  cfg_service :: "string option"

definition no_config :: config_dict where
  "no_config = \<lparr>cfg_host = None, cfg_port = None, cfg_url = None,
     cfg_expected_status = None, cfg_container = None, cfg_service = None\<rparr>"

record Target =
  name :: string
  type :: string
  status :: Status
  last_check :: "int option"
  last_status_change :: "int option"
  consecutive_failures :: int
  response_time :: real
  error_message :: string
  config :: config_dict

text \<open>The dataclass constructor with its defaults.\<close>

definition new_Target :: "string \<Rightarrow> string \<Rightarrow> config_dict \<Rightarrow> Target" where
  "new_Target n ty c =
     \<lparr>name = n, type = ty, status = UNKNOWN, last_check = None, last_status_change = None,
      consecutive_failures = 0, response_time = 0, error_message = [], config = c\<rparr>"

subsection \<open>Exceptions and the outside world\<close>

text \<open>
  The exception classes that the \<^verbatim>\<open>except\<close> clauses of the source tell apart, each with the
  text that \<^verbatim>\<open>str(e)\<close> gives; \<open>ClientError\<close> also carries \<^verbatim>\<open>type(e).__name__\<close>. An
  exception that is both a timeout and a client error is a \<open>TimeoutError\<close> here, since every
  handler of the source tests the timeout first.
\<close>

datatype exn =
    TimeoutError string
  | ConnectionRefusedError string
  | ClientError string string
  | KeyError string
  | OtherException string

fun str_exn :: "exn \<Rightarrow> string" where
  "str_exn (TimeoutError s) = s"
| "str_exn (ConnectionRefusedError s) = s"
| "str_exn (ClientError tn s) = s"
| "str_exn (KeyError s) = s"
| "str_exn (OtherException s) = s"

text \<open>
  What \<^verbatim>\<open>asyncio.wait_for\<close> raises when its timeout expires: the standard library executes
  \<^verbatim>\<open>raise exceptions.TimeoutError()\<close>, an exception with no arguments, whose \<^verbatim>\<open>str\<close> is the
  empty string.
\<close>

definition wait_for_timeout :: exn where
  "wait_for_timeout = TimeoutError []"

datatype 'a outcome = Returns 'a | Raises exn

text \<open>
  What the outside answers to one call of \<^verbatim>\<open>check_target\<close>: the outcome of the body of each
  prober's \<^verbatim>\<open>try\<close> block (the values the prober then looks at, with the elapsed
  milliseconds it measured), and the readings of \<^verbatim>\<open>datetime.now()\<close> in program order:
  at \<^verbatim>\<open>last_check\<close>, at \<^verbatim>\<open>last_status_change\<close>, at the head of \<^verbatim>\<open>send_alert\<close> and at its
  downtime computation. For Systemd the text is \<^verbatim>\<open>stdout.decode().strip()\<close>.
\<close>

record world =
  ping_exec :: "string \<Rightarrow> (int \<times> real) outcome"
  open_connection :: "string \<Rightarrow> int \<Rightarrow> real outcome"
  http_get :: "string \<Rightarrow> (int \<times> real) outcome"
  docker_inspect :: "string \<Rightarrow> (int \<times> string \<times> real) outcome"
  systemctl_is_active :: "string \<Rightarrow> (int \<times> string \<times> real) outcome"
  now_last_check :: int
  now_status_change :: int
  now_alert :: int
  now_duration :: int

subsection \<open>Strings\<close>

text \<open>Python's \<^verbatim>\<open>sub in s\<close> on strings and bytes.\<close>

fun contains :: "string \<Rightarrow> string \<Rightarrow> bool" where
  "contains sub [] = (sub = [])"
| "contains sub (c # cs) = (take (length sub) (c # cs) = sub \<or> contains sub cs)"

text \<open>\<^verbatim>\<open>bytes.lower()\<close>: the ASCII capitals are mapped to small letters, nothing else changes.\<close>

definition lower_char :: "char \<Rightarrow> char" where
  "lower_char c =
     (if CHR ''A'' \<le> c \<and> c \<le> CHR ''Z'' then char_of (of_char c + (32::nat)) else c)"

definition lower :: "string \<Rightarrow> string" where
  "lower s = map lower_char s"

text \<open>The decimal text of an integer, as an f-string prints it.\<close>

definition digit_char :: "nat \<Rightarrow> char" where
  "digit_char d = char_of (48 + d)"

function str_nat :: "nat \<Rightarrow> string" where
  "str_nat n = (if n < 10 then [digit_char n] else str_nat (n div 10) @ [digit_char (n mod 10)])"
  by pat_completeness auto
termination
  by (relation "measure (\<lambda>n. n)") auto

definition str_int :: "int \<Rightarrow> string" where
  "str_int i = (if i < 0 then CHR ''-'' # str_nat (nat (- i)) else str_nat (nat i))"

section \<open>The notifier\<close>

text \<open>
  A message is kept as the values that the source formats into its text, one field for each
  line that may or may not be there; the fixed wording, the markup and the formatting of
  the numbers are not modelled. \<^verbatim>\<open>send_message\<close> is the effect: the model returns the
  message, and the caller appends it to the list of messages sent.
\<close>

record alert =
  alert_is_down :: bool
  alert_name :: string
  alert_type :: string
  alert_time :: int
  alert_error :: "string option"
  alert_response :: "real option"
  alert_downtime :: "(int \<times> int \<times> int) option"

text \<open>
  \<^verbatim>\<open>int(duration.total_seconds())\<close> for a \<^verbatim>\<open>timedelta\<close> of \<open>d\<close> microseconds: Python's
  \<^verbatim>\<open>int\<close> rounds towards zero.
\<close>

definition total_seconds_int :: "int \<Rightarrow> int" where
  "total_seconds_int d = (if 0 \<le> d then d div 1000000 else - ((- d) div 1000000))"

text \<open>The two \<^verbatim>\<open>divmod\<close> calls of \<^verbatim>\<open>send_alert\<close>; Python's and HOL's both round down.\<close>

definition hms :: "int \<Rightarrow> int \<times> int \<times> int" where
  "hms secs =
     (let hours = secs div 3600; remainder = secs mod 3600;
          minutes = remainder div 60; seconds = remainder mod 60
      in (hours, minutes, seconds))"

definition send_alert :: "world \<Rightarrow> Target \<Rightarrow> bool \<Rightarrow> alert" where
  "send_alert w target is_down =
     \<lparr>alert_is_down = is_down,
      alert_name = name target,
      alert_type = type target,
      alert_time = now_alert w,
      alert_error =
        (if error_message target \<noteq> [] \<and> is_down then Some (error_message target) else None),
      alert_response =
        (if response_time target > 0 \<and> \<not> is_down then Some (response_time target) else None),
      alert_downtime =
        (case last_status_change target of
           Some changed \<Rightarrow>
             if \<not> is_down then Some (hms (total_seconds_int (now_duration w - changed)))
             else None
         | None \<Rightarrow> None)\<rparr>"

text \<open>
  The status report: the two counts of its head and one line for each target, in the order
  of the loop, with the error text where the source prints it.
\<close>

record report_line =
  line_status :: Status
  line_name :: string
  line_error :: "string option"

record report =
  report_time :: int
  up_count :: nat
  down_count :: nat
  report_lines :: "report_line list"

text \<open>
  The key of \<^verbatim>\<open>sorted\<close>: the pair \<^verbatim>\<open>(x.status != Status.DOWN, x.name)\<close>. Python orders
  tuples lexicographically, \<^verbatim>\<open>False\<close> before \<^verbatim>\<open>True\<close>, and strings by code point, which
  is the order of their UTF-8 bytes; \<^verbatim>\<open>sorted\<close> is stable, as \<^const>\<open>sort_key\<close> is.
\<close>

definition report_key :: "Target \<Rightarrow> bool \<times> string" where
  "report_key x = (status x \<noteq> DOWN, name x)"

definition format_line :: "Target \<Rightarrow> report_line" where
  "format_line target =
     \<lparr>line_status = status target,
      line_name = name target,
      line_error =
        (if status target = DOWN \<and> error_message target \<noteq> []
         then Some (error_message target) else None)\<rparr>"

definition send_status_report :: "int \<Rightarrow> Target list \<Rightarrow> report" where
  "send_status_report now targets =
     \<lparr>report_time = now,
      up_count = length (filter (\<lambda>t. status t = UP) targets),
      down_count = length (filter (\<lambda>t. status t = DOWN) targets),
      report_lines = map format_line (sort_key report_key targets)\<rparr>"

section \<open>The probers\<close>

text \<open>
  Each prober returns the triple \<^verbatim>\<open>(ok, response_time, error)\<close>. The \<^verbatim>\<open>except\<close> clauses are
  tried in the order of the source. Exceptions that are not an \<^verbatim>\<open>Exception\<close> (a
  cancellation, a keyboard interrupt) are not modelled.
\<close>

definition check_ping :: "world \<Rightarrow> string \<Rightarrow> bool \<times> real \<times> string" where
  "check_ping w host =
     (case ping_exec w host of
        Returns (returncode, elapsed) \<Rightarrow>
          if returncode = 0 then (True, elapsed, []) else (False, 0, ''Host unreachable'')
      | Raises (TimeoutError s) \<Rightarrow> (False, 0, ''Ping timeout'')
      | Raises e \<Rightarrow> (False, 0, str_exn e))"

definition check_tcp_port :: "world \<Rightarrow> string \<Rightarrow> int \<Rightarrow> bool \<times> real \<times> string" where
  "check_tcp_port w host port =
     (case open_connection w host port of
        Returns elapsed \<Rightarrow> (True, elapsed, [])
      | Raises (TimeoutError s) \<Rightarrow> (False, 0, ''Timeout porta '' @ str_int port)
      | Raises (ConnectionRefusedError s) \<Rightarrow>
          (False, 0, ''Connessione rifiutata porta '' @ str_int port)
      | Raises e \<Rightarrow> (False, 0, str_exn e))"

definition check_http :: "world \<Rightarrow> string \<Rightarrow> int \<Rightarrow> bool \<times> real \<times> string" where
  "check_http w url expected_status =
     (case http_get w url of
        Returns (resp_status, elapsed) \<Rightarrow>
          if resp_status = expected_status then (True, elapsed, [])
          else (False, elapsed, ''HTTP '' @ str_int resp_status)
      | Raises (TimeoutError s) \<Rightarrow> (False, 0, ''HTTP timeout'')
      | Raises (ClientError type_name s) \<Rightarrow> (False, 0, ''HTTP error: '' @ type_name)
      | Raises e \<Rightarrow> (False, 0, str_exn e))"

definition check_docker :: "world \<Rightarrow> string \<Rightarrow> bool \<times> real \<times> string" where
  "check_docker w container =
     (case docker_inspect w container of
        Returns (returncode, stdout, elapsed) \<Rightarrow>
          if returncode = 0 \<and> contains ''true'' (lower stdout) then (True, elapsed, [])
          else (False, 0, ''Container non running'')
      | Raises e \<Rightarrow> (False, 0, str_exn e))"

definition check_systemd :: "world \<Rightarrow> string \<Rightarrow> bool \<times> real \<times> string" where
  "check_systemd w service =
     (case systemctl_is_active w service of
        Returns (returncode, stdout_text, elapsed) \<Rightarrow>
          if returncode = 0 then (True, elapsed, [])
          else (False, 0, ''Status: '' @ stdout_text)
      | Raises e \<Rightarrow> (False, 0, str_exn e))"

section \<open>The health state machine: \<^verbatim>\<open>check_target\<close>\<close>

text \<open>The prober calls that a check makes, recorded for the trace.\<close>

datatype probe_call =
    PingCall string
  | TcpCall string int
  | HttpCall string int
  | DockerCall string
  | SystemdCall string

text \<open>
  The first half of \<^verbatim>\<open>check_target\<close>: the dispatch on the substrings of the type. A
  missing key of \<^verbatim>\<open>target.config\<close> raises \<open>KeyError\<close> before anything is written to the
  target. With no matching substring the three locals keep their initial values and no
  prober is called.
\<close>

definition run_probe :: "world \<Rightarrow> Target \<Rightarrow> exn + (probe_call list \<times> bool \<times> real \<times> string)" where
  "run_probe w target =
     (if contains ''Ping'' (type target) then
        (case cfg_host (config target) of
           None \<Rightarrow> Inl (KeyError ''host'')
         | Some host \<Rightarrow> Inr ([PingCall host], check_ping w host))
      else if contains ''TCP'' (type target) then
        (case cfg_host (config target) of
           None \<Rightarrow> Inl (KeyError ''host'')
         | Some host \<Rightarrow>
             (case cfg_port (config target) of
                None \<Rightarrow> Inl (KeyError ''port'')
              | Some port \<Rightarrow> Inr ([TcpCall host port], check_tcp_port w host port)))
      else if contains ''HTTP'' (type target) then
        (case cfg_url (config target) of
           None \<Rightarrow> Inl (KeyError ''url'')
         | Some url \<Rightarrow>
             (let expected_status =
                    (case cfg_expected_status (config target) of None \<Rightarrow> 200 | Some e \<Rightarrow> e)
              in Inr ([HttpCall url expected_status], check_http w url expected_status)))
      else if contains ''Docker'' (type target) then
        (case cfg_container (config target) of
           None \<Rightarrow> Inl (KeyError ''container'')
         | Some container \<Rightarrow> Inr ([DockerCall container], check_docker w container))
      else if contains ''Systemd'' (type target) then
        (case cfg_service (config target) of
           None \<Rightarrow> Inl (KeyError ''service'')
         | Some service \<Rightarrow> Inr ([SystemdCall service], check_systemd w service))
      else Inr ([], (False, 0, [])))"

text \<open>
  The second half of \<^verbatim>\<open>check_target\<close>, from \<^verbatim>\<open>target.last_check = datetime.now()\<close> on:
  the new target and the alerts sent. \<^verbatim>\<open>send_alert\<close> is given the target as it is at the
  call, after the assignments to \<^verbatim>\<open>status\<close> and \<^verbatim>\<open>last_status_change\<close>.
\<close>

definition apply_result :: "Config \<Rightarrow> world \<Rightarrow> Target \<Rightarrow> bool \<times> real \<times> string \<Rightarrow> Target \<times> alert list" where
  "apply_result cfg w target r =
     (case r of (is_up, response_time', error_msg) \<Rightarrow>
        let t1 = target\<lparr>last_check := Some (now_last_check w),
                       response_time := response_time',
                       error_message := error_msg\<rparr>;
            previous_status = status t1
        in if is_up then
             (let t2 = t1\<lparr>consecutive_failures := 0\<rparr>
              in if previous_status = DOWN then
                   (let t3 = t2\<lparr>status := UP, last_status_change := Some (now_status_change w)\<rparr>
                    in (t3, if ALERT_ON_RECOVERY cfg then [send_alert w t3 False] else []))
                 else (t2\<lparr>status := UP\<rparr>, []))
           else
             (let t2 = t1\<lparr>consecutive_failures := consecutive_failures t1 + 1\<rparr>
              in if consecutive_failures t2 \<ge> CONSECUTIVE_FAILURES cfg then
                   (if previous_status \<noteq> DOWN then
                      (let t3 = t2\<lparr>status := DOWN,
                                    last_status_change := Some (now_status_change w)\<rparr>
                       in (t3, [send_alert w t3 True]))
                    else (t2, []))
                 else (t2, [])))"

text \<open>What one call leaves behind: the target, the prober calls made and the alerts sent.\<close>

record checked =
  target_after :: Target
  probes :: "probe_call list"
  alerts :: "alert list"

definition check_target :: "Config \<Rightarrow> world \<Rightarrow> Target \<Rightarrow> exn + checked" where
  "check_target cfg w target =
     (case run_probe w target of
        Inl e \<Rightarrow> Inl e
      | Inr (calls, r) \<Rightarrow>
          (case apply_result cfg w target r of
             (target', sent) \<Rightarrow>
               Inr \<lparr>target_after = target', probes = calls, alerts = sent\<rparr>))"

section \<open>The scheduler\<close>

text \<open>
  One task of \<^verbatim>\<open>run_checks\<close>: \<^verbatim>\<open>asyncio.gather(..., return_exceptions=True)\<close> keeps an
  exception of a task as a value, so a check that raises leaves its target as it was and
  sends nothing.
\<close>

definition check_task :: "Config \<Rightarrow> world \<Rightarrow> Target \<Rightarrow> checked" where
  "check_task cfg w target =
     (case check_target cfg w target of
        Inl e \<Rightarrow> \<lparr>target_after = target, probes = [], alerts = []\<rparr>
      | Inr c \<Rightarrow> c)"

text \<open>
  The checks of one target over successive rounds, the worlds of the rounds given oldest
  first: the final target and all alerts sent for it, in order.
\<close>

fun feed :: "Config \<Rightarrow> Target \<Rightarrow> world list \<Rightarrow> Target \<times> alert list" where
  "feed cfg target [] = (target, [])"
| "feed cfg target (w # ws) =
     (let c = check_task cfg w target;
          (target', sent) = feed cfg (target_after c) ws
      in (target', alerts c @ sent))"

text \<open>
  One round over all targets. The tasks run concurrently, each on its own target object, so
  the targets after the round do not depend on the interleaving; the alerts are listed in
  the order of the targets. The world of the task at position \<open>i\<close> is \<open>ws i\<close>.
\<close>

fun run_checks_from :: "Config \<Rightarrow> (nat \<Rightarrow> world) \<Rightarrow> nat \<Rightarrow> Target list \<Rightarrow> checked list" where
  "run_checks_from cfg ws i [] = []"
| "run_checks_from cfg ws i (t # ts) = check_task cfg (ws i) t # run_checks_from cfg ws (Suc i) ts"

definition run_checks :: "Config \<Rightarrow> (nat \<Rightarrow> world) \<Rightarrow> Target list \<Rightarrow> checked list" where
  "run_checks cfg ws targets = run_checks_from cfg ws 0 targets"

text \<open>The messages that the monitor sends.\<close>

datatype message =
    AlertMsg alert
  | ReportMsg report
  | StartupMsg nat int

text \<open>
  How \<^verbatim>\<open>start\<close> is left: it returns, or it is still in its \<^verbatim>\<open>while True\<close> loop after the
  rounds that were given.
\<close>

datatype ending = Returned | Looping

record run =
  run_ending :: ending
  run_targets :: "Target list"
  run_rounds :: "checked list list"
  run_sent :: "message list"

text \<open>
  The loop of the continuous mode, unrolled over the rounds given (\<open>rounds\<close> holds, for each
  round, the worlds of its tasks and the sleep is not modelled); with none left it is still
  looping.
\<close>

fun monitor_loop :: "Config \<Rightarrow> (nat \<Rightarrow> world) list \<Rightarrow> Target list \<Rightarrow> run" where
  "monitor_loop cfg [] targets =
     \<lparr>run_ending = Looping, run_targets = targets, run_rounds = [], run_sent = []\<rparr>"
| "monitor_loop cfg (ws # rounds) targets =
     (let cs = run_checks cfg ws targets;
          rest = monitor_loop cfg rounds (map target_after cs)
      in rest\<lparr>run_rounds := cs # run_rounds rest,
              run_sent := map AlertMsg (concat (map alerts cs)) @ run_sent rest\<rparr>)"

text \<open>
  \<^verbatim>\<open>SystemMonitor.start\<close>. \<open>ws\<close> is the world of the first round, \<open>rounds\<close> the worlds of the
  later ones and \<open>now\<close> the clock reading of \<^verbatim>\<open>send_status_report\<close>.
\<close>

definition start :: "Config \<Rightarrow> (nat \<Rightarrow> world) \<Rightarrow> (nat \<Rightarrow> world) list \<Rightarrow> int \<Rightarrow> Target list \<Rightarrow> run" where
  "start cfg ws rounds now targets =
     (if RUN_ONCE cfg then
        (let cs = run_checks cfg ws targets;
             targets' = map target_after cs;
             down_services = filter (\<lambda>t. status t = DOWN) targets'
         in \<lparr>run_ending = Returned,
             run_targets = targets',
             run_rounds = [cs],
             run_sent = map AlertMsg (concat (map alerts cs)) @
               (if down_services \<noteq> [] then [ReportMsg (send_status_report now targets')]
                else [])\<rparr>)
      else
        (let rest = monitor_loop cfg (ws # rounds) targets
         in rest\<lparr>run_sent := StartupMsg (length targets) (CHECK_INTERVAL cfg) # run_sent rest\<rparr>))"

section \<open>Notions of the specification\<close>

text \<open>No two neighbours of a list of alert kinds are equal.\<close>

fun alternating :: "bool list \<Rightarrow> bool" where
  "alternating [] = True"
| "alternating [x] = True"
| "alternating (x # y # zs) = (x \<noteq> y \<and> alternating (y # zs))"

text \<open>
  The probe outcomes of a target over successive rounds (a check that raises before its
  probe has none), and the number of failing outcomes at the end of such a sequence.
\<close>

definition probe_outcomes :: "Target \<Rightarrow> world list \<Rightarrow> bool list" where
  "probe_outcomes target ws =
     concat (map (\<lambda>w. case run_probe w target of
                         Inl e \<Rightarrow> []
                       | Inr (calls, is_up, rt, msg) \<Rightarrow> [is_up]) ws)"

definition failure_streak :: "bool list \<Rightarrow> nat" where
  "failure_streak oks = length (takeWhile Not (rev oks))"

fun is_report :: "message \<Rightarrow> bool" where
  "is_report (ReportMsg r) = True"
| "is_report m = False"

text \<open>
  While a target is not Down its failure count is below the threshold, or still 0 when the
  threshold is not positive.
\<close>

definition below_threshold :: "Config \<Rightarrow> Target \<Rightarrow> bool" where
  "below_threshold cfg t \<longleftrightarrow>
     (status t \<noteq> DOWN \<longrightarrow>
        consecutive_failures t < CONSECUTIVE_FAILURES cfg \<or> consecutive_failures t = 0)"

section \<open>Example inputs\<close>

text \<open>
  A world in which every probe succeeds, or every probe fails, with the four clock readings
  one microsecond apart from \<open>t\<close> on.
\<close>

definition example_world :: "bool \<Rightarrow> int \<Rightarrow> world" where
  "example_world ok t =
     \<lparr>ping_exec = (\<lambda>host. if ok then Returns (0, 12.5) else Returns (1, 3000)),
      open_connection =
        (\<lambda>host port. if ok then Returns 8 else Raises (ConnectionRefusedError ''refused'')),
      http_get = (\<lambda>url. if ok then Returns (200, 85) else Returns (503, 40)),
      docker_inspect =
        (\<lambda>container. if ok then Returns (0, ''true'', 20) else Returns (1, [], 20)),
      systemctl_is_active =
        (\<lambda>service. if ok then Returns (0, ''active'', 5) else Returns (3, ''inactive'', 5)),
      now_last_check = t, now_status_change = t + 1, now_alert = t + 2,
      now_duration = t + 3\<rparr>"

text \<open>A world in which every probe runs into the timeout of \<^verbatim>\<open>asyncio.wait_for\<close>.\<close>

definition timeout_world :: "int \<Rightarrow> world" where
  "timeout_world t =
     \<lparr>ping_exec = (\<lambda>host. Raises wait_for_timeout),
      open_connection = (\<lambda>host port. Raises wait_for_timeout),
      http_get = (\<lambda>url. Raises wait_for_timeout),
      docker_inspect = (\<lambda>container. Raises wait_for_timeout),
      systemctl_is_active = (\<lambda>service. Raises wait_for_timeout),
      now_last_check = t, now_status_change = t + 1, now_alert = t + 2,
      now_duration = t + 3\<rparr>"

text \<open>The first server of \<^verbatim>\<open>SERVERS\<close>, as \<^verbatim>\<open>_init_targets\<close> builds it.\<close>

definition ping_target :: Target where
  "ping_target =
     new_Target ''BTCPayServer PROD'' ''Server (Ping)''
       (no_config\<lparr>cfg_host := Some ''51.75.90.145''\<rparr>)"

text \<open>The same server, Down since time 0 after two failures.\<close>

definition down_target :: Target where
  "down_target =
     ping_target\<lparr>status := DOWN, consecutive_failures := 2, last_status_change := Some 0,
       error_message := ''Host unreachable''\<rparr>"

text \<open>A target of a type that no branch of \<^verbatim>\<open>check_target\<close> knows.\<close>

definition other_target :: Target where
  "other_target = new_Target ''Backup job'' ''Cron'' no_config"

definition named :: "string \<Rightarrow> Status \<Rightarrow> Target" where
  "named n s = (new_Target n ''HTTP/HTTPS'' no_config)\<lparr>status := s\<rparr>"

text \<open>
  The states of \<open>ping_target\<close> along the run "fail, fail, success" with the checks at the
  times given, and the two alerts of that run.
\<close>

definition failed_once :: "int \<Rightarrow> Target" where
  "failed_once tm =
     ping_target\<lparr>last_check := Some tm, consecutive_failures := 1,
       error_message := ''Host unreachable''\<rparr>"

definition went_down :: "int \<Rightarrow> Target" where
  "went_down tm =
     ping_target\<lparr>status := DOWN, last_check := Some tm, last_status_change := Some (tm + 1),
       consecutive_failures := 2, error_message := ''Host unreachable''\<rparr>"

definition recovered :: "int \<Rightarrow> Target" where
  "recovered tm =
     ping_target\<lparr>status := UP, last_check := Some tm, last_status_change := Some (tm + 1),
       response_time := 12.5\<rparr>"

definition down_alert :: "int \<Rightarrow> alert" where
  "down_alert tm =
     \<lparr>alert_is_down = True, alert_name = ''BTCPayServer PROD'', alert_type = ''Server (Ping)'',
      alert_time = tm + 2, alert_error = Some ''Host unreachable'', alert_response = None,
      alert_downtime = None\<rparr>"

definition recovery_alert :: "int \<Rightarrow> alert" where
  "recovery_alert tm =
     \<lparr>alert_is_down = False, alert_name = ''BTCPayServer PROD'', alert_type = ''Server (Ping)'',
      alert_time = tm + 2, alert_error = None, alert_response = Some 12.5,
      alert_downtime = Some (0, 0, 0)\<rparr>"

text \<open>The worlds of the tasks of one round over two targets.\<close>

definition one_down :: "nat \<Rightarrow> world" where
  "one_down i = (if i = 0 then example_world True 30 else example_world False 30)"

definition all_up :: "nat \<Rightarrow> world" where
  "all_up i = example_world True 30"

section \<open>Evaluation\<close>

text \<open>One step of \<^const>\<open>feed\<close>, without the local bindings.\<close>

lemma feed_Cons:
  "feed cfg t (w # ws) =
     (fst (feed cfg (target_after (check_task cfg w t)) ws),
      alerts (check_task cfg w t) @ snd (feed cfg (target_after (check_task cfg w t)) ws))"
  by (simp add: Let_def case_prod_beta)

declare feed.simps(2) [simp del]

lemmas example_defs =
  example_world_def timeout_world_def ping_target_def down_target_def other_target_def
  named_def new_Target_def no_config_def CONFIG_def wait_for_timeout_def

lemmas check_defs =
  feed_Cons check_task_def check_target_def run_probe_def apply_result_def send_alert_def
  check_ping_def check_tcp_port_def check_http_def check_docker_def check_systemd_def
  hms_def total_seconds_int_def

lemmas run_defs = failed_once_def went_down_def recovered_def down_alert_def recovery_alert_def

lemma step_first_failure:
  "check_task (CONFIG c r) (example_world False tm) ping_target =
     \<lparr>target_after = failed_once tm, probes = [PingCall ''51.75.90.145''], alerts = []\<rparr>"
  by (simp add: check_defs example_defs run_defs)

lemma step_second_failure:
  "check_task (CONFIG c r) (example_world False tm) (failed_once tm0) =
     \<lparr>target_after = went_down tm, probes = [PingCall ''51.75.90.145''],
      alerts = [down_alert tm]\<rparr>"
  by (simp add: check_defs example_defs run_defs)

lemma step_third_failure:
  "check_task (CONFIG c r) (example_world False tm) (went_down tm0) =
     \<lparr>target_after = (went_down tm0)\<lparr>last_check := Some tm, consecutive_failures := 3\<rparr>,
      probes = [PingCall ''51.75.90.145''], alerts = []\<rparr>"
  by (simp add: check_defs example_defs run_defs)

lemma step_recovery:
  "check_task (CONFIG c r) (example_world True tm) (went_down tm0) =
     \<lparr>target_after = recovered tm, probes = [PingCall ''51.75.90.145''],
      alerts = [recovery_alert tm]\<rparr>"
  by (simp add: check_defs example_defs run_defs)

lemma step_first_success:
  "check_task (CONFIG c r) (example_world True tm) ping_target =
     \<lparr>target_after = ping_target\<lparr>status := UP, last_check := Some tm, response_time := 12.5\<rparr>,
      probes = [PingCall ''51.75.90.145''], alerts = []\<rparr>"
  by (simp add: check_defs example_defs run_defs)

lemmas step_simps = feed_Cons step_first_failure step_second_failure step_third_failure step_recovery step_first_success

lemma run_values:
  "status ping_target = UNKNOWN" "consecutive_failures ping_target = 0"
  "status (failed_once tm) = UNKNOWN" "consecutive_failures (failed_once tm) = 1"
  "status (went_down tm) = DOWN" "consecutive_failures (went_down tm) = 2"
  "last_status_change (went_down tm) = Some (tm + 1)"
  "status (recovered tm) = UP" "consecutive_failures (recovered tm) = 0"
  "last_status_change (recovered tm) = Some (tm + 1)"
  "alert_is_down (down_alert tm) = True" "alert_is_down (recovery_alert tm) = False"
  by (simp_all add: run_defs example_defs)

lemma config_values:
  "CONSECUTIVE_FAILURES (CONFIG c r) = 2" "ALERT_ON_RECOVERY (CONFIG c r) = True"
  "RUN_ONCE (CONFIG c r) = r" "CHECK_INTERVAL (CONFIG c r) = c"
  by (simp_all add: CONFIG_def)

lemmas example_simps = step_simps run_values config_values

lemma example_run:
  "feed (CONFIG c r) ping_target [example_world False 0, example_world False 30, example_world True 60]
   = (recovered 60, [down_alert 30, recovery_alert 60])"
  by (simp add: step_simps)

section \<open>Basic facts about one check\<close>

lemma check_task_unfold:
  "check_task cfg w t =
     (case run_probe w t of
        Inl e \<Rightarrow> \<lparr>target_after = t, probes = [], alerts = []\<rparr>
      | Inr (calls, r) \<Rightarrow>
          \<lparr>target_after = fst (apply_result cfg w t r), probes = calls,
           alerts = snd (apply_result cfg w t r)\<rparr>)"
  by (simp add: check_task_def check_target_def split: sum.splits prod.splits)

lemma status_apply_result:
  "status (fst (apply_result cfg w t (ok, rt, em))) =
     (if ok then UP
      else if CONSECUTIVE_FAILURES cfg \<le> consecutive_failures t + 1 \<and> status t \<noteq> DOWN then DOWN
      else status t)"
  by (simp add: apply_result_def Let_def)

lemma failures_apply_result:
  "consecutive_failures (fst (apply_result cfg w t (ok, rt, em))) =
     (if ok then 0 else consecutive_failures t + 1)"
  by (simp add: apply_result_def Let_def)

lemma change_apply_result:
  "last_status_change (fst (apply_result cfg w t (ok, rt, em))) =
     (if ok then (if status t = DOWN then Some (now_status_change w) else last_status_change t)
      else if CONSECUTIVE_FAILURES cfg \<le> consecutive_failures t + 1 \<and> status t \<noteq> DOWN
        then Some (now_status_change w)
      else last_status_change t)"
  by (simp add: apply_result_def Let_def)

lemma flags_apply_result:
  "map alert_is_down (snd (apply_result cfg w t (ok, rt, em))) =
     (if ok then (if status t = DOWN \<and> ALERT_ON_RECOVERY cfg then [False] else [])
      else if CONSECUTIVE_FAILURES cfg \<le> consecutive_failures t + 1 \<and> status t \<noteq> DOWN then [True]
      else [])"
  by (simp add: apply_result_def Let_def send_alert_def)

lemma frame_apply_result:
  "type (fst (apply_result cfg w t r)) = type t"
  "config (fst (apply_result cfg w t r)) = config t"
  "name (fst (apply_result cfg w t r)) = name t"
  by (cases r; simp add: apply_result_def Let_def)+

lemma run_probe_cong:
  assumes "type t' = type t" and "config t' = config t"
  shows "run_probe w t' = run_probe w t"
  unfolding run_probe_def assms by (rule refl)

lemma frame_check_task:
  "type (target_after (check_task cfg w t)) = type t"
  "config (target_after (check_task cfg w t)) = config t"
  "name (target_after (check_task cfg w t)) = name t"
  by (simp_all add: check_task_unfold frame_apply_result split: sum.splits prod.splits)

lemma step_flags:
  assumes "ALERT_ON_RECOVERY cfg"
  shows "map alert_is_down (alerts (check_task cfg w t)) =
           (if status t \<noteq> DOWN \<and> status (target_after (check_task cfg w t)) = DOWN then [True]
            else if status t = DOWN \<and> status (target_after (check_task cfg w t)) \<noteq> DOWN then [False]
            else [])"
proof (cases "run_probe w t")
  case (Inl e)
  then show ?thesis by (simp add: check_task_unfold)
next
  case (Inr p)
  obtain calls ok rt em where p: "p = (calls, ok, rt, em)"
    by (cases p) auto
  show ?thesis
    using assms
    by (simp add: check_task_unfold Inr p status_apply_result flags_apply_result)
qed

section \<open>Basic facts about a sequence of checks\<close>

lemma feed_append:
  "feed cfg t (ws @ vs) =
     (let (t', a) = feed cfg t ws; (t'', b) = feed cfg t' vs in (t'', a @ b))"
  by (induction ws arbitrary: t) (simp_all add: feed_Cons Let_def case_prod_beta)

lemma feed_snoc:
  "fst (feed cfg t (ws @ [w])) = target_after (check_task cfg w (fst (feed cfg t ws)))"
  "snd (feed cfg t (ws @ [w])) =
     snd (feed cfg t ws) @ alerts (check_task cfg w (fst (feed cfg t ws)))"
  by (simp_all add: feed_append feed_Cons Let_def case_prod_beta)

lemma frame_feed:
  "type (fst (feed cfg t ws)) = type t \<and> config (fst (feed cfg t ws)) = config t"
  by (induction ws arbitrary: t) (simp_all add: feed_Cons frame_check_task)

lemma down_invariant_step:
  assumes "status t = DOWN \<longrightarrow> CONSECUTIVE_FAILURES cfg \<le> consecutive_failures t"
  shows "status (target_after (check_task cfg w t)) = DOWN \<longrightarrow>
         CONSECUTIVE_FAILURES cfg \<le> consecutive_failures (target_after (check_task cfg w t))"
  using assms
  by (auto simp add: check_task_unfold status_apply_result failures_apply_result
      split: sum.splits prod.splits if_splits)

lemma down_invariant_feed:
  "status t = DOWN \<longrightarrow> CONSECUTIVE_FAILURES cfg \<le> consecutive_failures t \<Longrightarrow>
   status (fst (feed cfg t ws)) = DOWN \<longrightarrow>
     CONSECUTIVE_FAILURES cfg \<le> consecutive_failures (fst (feed cfg t ws))"
proof (induction ws arbitrary: t)
  case Nil
  then show ?case by simp
next
  case (Cons w ws)
  show ?case
    using Cons.IH [OF down_invariant_step [OF Cons.prems, of w]] by (simp add: feed_Cons)
qed

lemma alternating_cons:
  "alternating (x # xs) = ((xs \<noteq> [] \<longrightarrow> hd xs \<noteq> x) \<and> alternating xs)"
  by (cases xs) auto

lemma alternating_feed:
  assumes "ALERT_ON_RECOVERY cfg"
  shows "alternating (map alert_is_down (snd (feed cfg t ws))) \<and>
         (snd (feed cfg t ws) \<noteq> [] \<longrightarrow>
            alert_is_down (hd (snd (feed cfg t ws))) = (status t \<noteq> DOWN))"
proof (induction ws arbitrary: t)
  case Nil
  then show ?case by simp
next
  case (Cons w ws)
  let ?c = "check_task cfg w t"
  let ?r = "feed cfg (target_after ?c) ws"
  have eq: "snd (feed cfg t (w # ws)) = alerts ?c @ snd ?r"
    by (simp add: feed_Cons)
  note IH = Cons.IH [of "target_after ?c"]
  note sf = step_flags [OF assms, of w t]
  show ?case
  proof (cases "alerts ?c")
    case Nil
    with sf have "(status (target_after ?c) \<noteq> DOWN) = (status t \<noteq> DOWN)"
      by (auto split: if_splits)
    with IH Nil eq show ?thesis by simp
  next
    case (Cons a as)
    with sf have as: "as = []" and a: "alert_is_down a = (status t \<noteq> DOWN)"
      and st: "(status (target_after ?c) \<noteq> DOWN) = (\<not> alert_is_down a)"
      by (auto split: if_splits)
    show ?thesis
      using IH eq Cons as a st
      by (cases "snd ?r") (auto simp add: alternating_cons)
  qed
qed

lemma failure_streak_snoc:
  "failure_streak (oks @ [True]) = 0"
  "failure_streak (oks @ [False]) = Suc (failure_streak oks)"
  by (simp_all add: failure_streak_def)

lemma probe_outcomes_snoc:
  "probe_outcomes t (ws @ [w]) =
     probe_outcomes t ws @
       (case run_probe w t of Inl e \<Rightarrow> [] | Inr (calls, is_up, rt, msg) \<Rightarrow> [is_up])"
  by (simp add: probe_outcomes_def)

lemma run_probe_feed: "run_probe w (fst (feed cfg t ws)) = run_probe w t"
  by (rule run_probe_cong) (simp_all add: frame_feed)

lemma failures_are_streak:
  assumes "consecutive_failures t0 = 0"
  shows "consecutive_failures (fst (feed cfg t0 ws)) = int (failure_streak (probe_outcomes t0 ws))"
proof (induction ws rule: rev_induct)
  case Nil
  then show ?case using assms by (simp add: probe_outcomes_def failure_streak_def)
next
  case (snoc w ws)
  show ?case
  proof (cases "run_probe w t0")
    case (Inl e)
    then show ?thesis
      using snoc
      by (simp add: feed_snoc check_task_unfold run_probe_feed probe_outcomes_snoc)
  next
    case (Inr p)
    obtain calls ok rt em where p: "p = (calls, ok, rt, em)"
      by (cases p) auto
    show ?thesis
      using snoc
      by (cases ok)
        (simp_all add: feed_snoc check_task_unfold run_probe_feed probe_outcomes_snoc Inr p
          failures_apply_result failure_streak_snoc)
  qed
qed

lemma below_threshold_step:
  assumes "below_threshold cfg t"
  shows "below_threshold cfg (target_after (check_task cfg w t))"
  using assms
  by (auto simp add: below_threshold_def check_task_unfold status_apply_result
      failures_apply_result split: sum.splits prod.splits if_splits)

lemma below_threshold_feed:
  "below_threshold cfg t \<Longrightarrow> below_threshold cfg (fst (feed cfg t ws))"
  by (induction ws rule: rev_induct) (simp_all add: feed_snoc below_threshold_step)

lemma goes_down_step:
  assumes "status t \<noteq> DOWN" and "status (target_after (check_task cfg w t)) = DOWN"
  shows "consecutive_failures (target_after (check_task cfg w t)) = consecutive_failures t + 1 \<and>
         CONSECUTIVE_FAILURES cfg \<le> consecutive_failures t + 1 \<and>
         (\<exists>calls rt em. run_probe w t = Inr (calls, False, rt, em))"
  using assms
  by (auto simp add: check_task_unfold status_apply_result failures_apply_result
      split: sum.splits prod.splits if_splits)

lemma success_step:
  assumes "run_probe w t = Inr (calls, True, rt, em)"
  shows "consecutive_failures (target_after (check_task cfg w t)) = 0 \<and>
         status (target_after (check_task cfg w t)) = UP"
  using assms
  by (simp add: check_task_unfold status_apply_result failures_apply_result)

section \<open>The status report\<close>

lemma report_key_sorted:
  "sorted (map report_key (sort_key report_key targets))"
  by (rule sorted_sort_key)

lemma report_key_le:
  "report_key x \<le> report_key y \<longleftrightarrow>
     (status y = DOWN \<longrightarrow> status x = DOWN) \<and>
     ((status x = DOWN \<longleftrightarrow> status y = DOWN) \<longrightarrow> name x \<le> name y)"
  by (auto simp add: report_key_def less_eq_prod_def)

lemma report_lines_nth:
  assumes "i < length targets"
  shows "report_lines (send_status_report now targets) ! i =
           format_line (sort_key report_key targets ! i)"
  using assms by (simp add: send_status_report_def)

lemma report_lines_length:
  "length (report_lines (send_status_report now targets)) = length targets"
  by (simp add: send_status_report_def)

lemma report_pair_ordered:
  assumes "i < j" and "j < length targets"
  shows "report_key (sort_key report_key targets ! i) \<le> report_key (sort_key report_key targets ! j)"
proof -
  have "map report_key (sort_key report_key targets) ! i \<le>
        map report_key (sort_key report_key targets) ! j"
    using assms by (intro sorted_nth_mono [OF report_key_sorted]) simp_all
  then show ?thesis using assms by simp
qed

lemma count_lines:
  "length (filter (\<lambda>l. line_status l = s) (report_lines (send_status_report now targets))) =
   length (filter (\<lambda>t. status t = s) targets)"
proof -
  have "length (filter (\<lambda>t. status t = s) (sort_key report_key targets)) =
        size (filter_mset (\<lambda>t. status t = s) (mset (sort_key report_key targets)))"
    by (simp only: mset_filter [symmetric] size_mset)
  also have "\<dots> = size (filter_mset (\<lambda>t. status t = s) (mset targets))"
    by simp
  also have "\<dots> = length (filter (\<lambda>t. status t = s) targets)"
    by (simp only: mset_filter [symmetric] size_mset)
  finally show ?thesis
    by (simp add: send_status_report_def filter_map comp_def format_line_def)
qed

lemma status_partition:
  "length (filter (\<lambda>t. status t = UP) ts) + length (filter (\<lambda>t. status t = DOWN) ts) +
   length (filter (\<lambda>t. status t = UNKNOWN) ts) = length ts"
proof (induction ts)
  case Nil
  then show ?case by simp
next
  case (Cons t ts)
  then show ?case by (cases "status t") simp_all
qed

lemma example_report:
  "send_status_report 0 [named ''A'' UP, named ''B'' DOWN, named ''C'' DOWN, named ''D'' UP] =
     \<lparr>report_time = 0, up_count = 2, down_count = 2,
      report_lines =
        [\<lparr>line_status = DOWN, line_name = ''B'', line_error = None\<rparr>,
         \<lparr>line_status = DOWN, line_name = ''C'', line_error = None\<rparr>,
         \<lparr>line_status = UP, line_name = ''A'', line_error = None\<rparr>,
         \<lparr>line_status = UP, line_name = ''D'', line_error = None\<rparr>]\<rparr>"
  by (simp add: send_status_report_def format_line_def report_key_def named_def new_Target_def
      less_eq_prod_def less_prod_def)

lemma example_report_unknown:
  "send_status_report 0 [named ''A'' UP, named ''B'' UNKNOWN, named ''C'' DOWN, named ''D'' UP] =
     \<lparr>report_time = 0, up_count = 2, down_count = 1,
      report_lines =
        [\<lparr>line_status = DOWN, line_name = ''C'', line_error = None\<rparr>,
         \<lparr>line_status = UP, line_name = ''A'', line_error = None\<rparr>,
         \<lparr>line_status = UNKNOWN, line_name = ''B'', line_error = None\<rparr>,
         \<lparr>line_status = UP, line_name = ''D'', line_error = None\<rparr>]\<rparr>"
  by (simp add: send_status_report_def format_line_def report_key_def named_def new_Target_def
      less_eq_prod_def less_prod_def)

section \<open>One round\<close>

lemma run_checks_from_length:
  "length (run_checks_from cfg ws i ts) = length ts"
  by (induction ts arbitrary: i) simp_all

lemma run_checks_from_nth:
  "j < length ts \<Longrightarrow> run_checks_from cfg ws i ts ! j = check_task cfg (ws (i + j)) (ts ! j)"
proof (induction ts arbitrary: i j)
  case Nil
  then show ?case by simp
next
  case (Cons t ts)
  then show ?case by (cases j) simp_all
qed

lemma no_report_among_alerts: "filter is_report (map AlertMsg xs) = []"
  by (induction xs) simp_all

lemma run_once_example:
  "run_checks (CONFIG 30 True) one_down [ping_target, failed_once 0] =
     [\<lparr>target_after = ping_target\<lparr>status := UP, last_check := Some 30, response_time := 12.5\<rparr>,
       probes = [PingCall ''51.75.90.145''], alerts = []\<rparr>,
      \<lparr>target_after = went_down 30, probes = [PingCall ''51.75.90.145''],
       alerts = [down_alert 30]\<rparr>]"
  "run_checks (CONFIG 30 True) all_up [ping_target, went_down 0] =
     [\<lparr>target_after = ping_target\<lparr>status := UP, last_check := Some 30, response_time := 12.5\<rparr>,
       probes = [PingCall ''51.75.90.145''], alerts = []\<rparr>,
      \<lparr>target_after = recovered 30, probes = [PingCall ''51.75.90.145''],
       alerts = [recovery_alert 30]\<rparr>]"
  by (simp_all add: run_checks_def one_down_def all_up_def step_simps)

section \<open>Facts about the probers and the dispatch\<close>

lemma timeout_detail_siblings:
  "check_ping (timeout_world t) host = (False, 0, ''Ping timeout'')"
  "check_tcp_port (timeout_world t) host port = (False, 0, ''Timeout porta '' @ str_int port)"
  "check_http (timeout_world t) url expected = (False, 0, ''HTTP timeout'')"
  by (simp_all add: check_ping_def check_tcp_port_def check_http_def timeout_world_def
      wait_for_timeout_def)

lemma run_probe_unknown_type:
  assumes "\<not> contains ''Ping'' (type t)" and "\<not> contains ''TCP'' (type t)"
    and "\<not> contains ''HTTP'' (type t)" and "\<not> contains ''Docker'' (type t)"
    and "\<not> contains ''Systemd'' (type t)"
  shows "run_probe w t = Inr ([], False, 0, [])"
  using assms by (simp add: run_probe_def)

lemma unknown_type_feed:
  assumes "\<And>w. run_probe w t = Inr ([], False, 0, [])"
    and "status t = UNKNOWN" and "consecutive_failures t = 0"
  shows "consecutive_failures (fst (feed cfg t ws)) = int (length ws) \<and>
         status (fst (feed cfg t ws)) =
           (if ws \<noteq> [] \<and> CONSECUTIVE_FAILURES cfg \<le> int (length ws) then DOWN else UNKNOWN) \<and>
         map alert_is_down (snd (feed cfg t ws)) =
           (if ws \<noteq> [] \<and> CONSECUTIVE_FAILURES cfg \<le> int (length ws) then [True] else [])"
proof (induction ws rule: rev_induct)
  case Nil
  then show ?case using assms by simp
next
  case (snoc w ws)
  have rp: "run_probe w (fst (feed cfg t ws)) = Inr ([], False, 0, [])"
    by (simp add: run_probe_feed assms(1))
  have step: "fst (feed cfg t (ws @ [w])) =
      fst (apply_result cfg w (fst (feed cfg t ws)) (False, 0, []))"
    "snd (feed cfg t (ws @ [w])) =
      snd (feed cfg t ws) @ snd (apply_result cfg w (fst (feed cfg t ws)) (False, 0, []))"
    by (simp_all add: feed_snoc check_task_unfold rp)
  show ?case
    unfolding step using snoc
    by (auto simp add: status_apply_result failures_apply_result flags_apply_result)
qed

section \<open>The downtime of a recovery alert\<close>

text \<open>
  What \<^verbatim>\<open>send_alert\<close> prints as downtime after a recovery: \<^verbatim>\<open>check_target\<close> has already
  overwritten \<^verbatim>\<open>last_status_change\<close> with the time of the recovery, so the difference is
  taken between two clock readings of the same check, whatever the time the target went
  down.
\<close>

lemma recovery_alert_downtime:
  assumes "status t = DOWN" and "ALERT_ON_RECOVERY cfg"
    and "run_probe w t = Inr (calls, True, rt, em)"
  shows "map alert_downtime (alerts (check_task cfg w t)) =
           [Some (hms (total_seconds_int (now_duration w - now_status_change w)))]"
  using assms by (simp add: check_task_unfold apply_result_def send_alert_def Let_def)

text \<open>
  C1. A target that went Down at \<open>t0\<close> and is probed successfully at \<open>t\<close> gets one Recovered
  alert whose downtime is \<open>t - t0\<close>. The code sends the one alert, but its downtime is not
  the outage: \<open>down_target\<close> went Down at time 0 and recovers 4000 seconds later, an outage
  of 1h 6m 40s, and the alert says 0h 0m 0s.
\<close>

theorem recovery_downtime_at_failing_input:
  "check_target (CONFIG 30 False) (example_world True 4000000000) down_target =
     Inr \<lparr>target_after =
            \<lparr>name = ''BTCPayServer PROD'', type = ''Server (Ping)'', status = UP,
             last_check = Some 4000000000, last_status_change = Some 4000000001,
             consecutive_failures = 0, response_time = 12.5, error_message = [],
             config = no_config\<lparr>cfg_host := Some ''51.75.90.145''\<rparr>\<rparr>,
          probes = [PingCall ''51.75.90.145''],
          alerts =
            [\<lparr>alert_is_down = False, alert_name = ''BTCPayServer PROD'',
              alert_type = ''Server (Ping)'', alert_time = 4000000002, alert_error = None,
              alert_response = Some 12.5, alert_downtime = Some (0, 0, 0)\<rparr>]\<rparr> \<and>
   last_status_change down_target = Some 0 \<and>
   hms (total_seconds_int (4000000000 - 0)) = (1, 6, 40)"
  by (simp add: check_defs example_defs)

section \<open>Invariants of the state machine\<close>

text \<open>
  C2. A target starts with status Unknown and no failures. After each step of any sequence
  of checks, status Down implies that \<open>consecutive_failures\<close> is at least the configured
  threshold.
\<close>

theorem down_implies_threshold:
  assumes "status t0 = UNKNOWN" and "consecutive_failures t0 = 0"
  shows "status (fst (feed cfg t0 (take n ws))) = DOWN \<longrightarrow>
         CONSECUTIVE_FAILURES cfg \<le> consecutive_failures (fst (feed cfg t0 (take n ws)))"
  using assms by (intro down_invariant_feed) simp

theorem down_implies_threshold_witness:
  "status ping_target = UNKNOWN \<and> consecutive_failures ping_target = 0 \<and>
   status (fst (feed (CONFIG 30 False) ping_target
     (take 2 [example_world False 0, example_world False 30, example_world True 60]))) = DOWN \<and>
   consecutive_failures (fst (feed (CONFIG 30 False) ping_target
       (take 2 [example_world False 0, example_world False 30, example_world True 60]))) = 2 \<and>
   CONSECUTIVE_FAILURES (CONFIG 30 False) = 2"
  using down_implies_threshold [of ping_target "CONFIG 30 False" 2
      "[example_world False 0, example_world False 30, example_world True 60]"]
  by (simp add: example_simps)

text \<open>
  C3. From the initial state and along any sequence of checks, a check moves the target to
  Down only when its probe fails and the number of failing probes in a row, this one
  included, has reached the threshold (it equals the threshold when that is at least 1). A
  successful probe sets \<open>consecutive_failures\<close> to 0 and, if the target was Down, makes it
  Up in the same check.
\<close>

theorem down_at_threshold_up_on_success:
  assumes "status t0 = UNKNOWN" and "consecutive_failures t0 = 0"
    and "t = fst (feed cfg t0 ws)" and "t' = target_after (check_task cfg w t)"
  shows "(status t \<noteq> DOWN \<and> status t' = DOWN \<longrightarrow>
            (\<exists>calls rt em. run_probe w t = Inr (calls, False, rt, em)) \<and>
            consecutive_failures t' = int (failure_streak (probe_outcomes t0 (ws @ [w]))) \<and>
            CONSECUTIVE_FAILURES cfg \<le> int (failure_streak (probe_outcomes t0 (ws @ [w]))) \<and>
            (1 \<le> CONSECUTIVE_FAILURES cfg \<longrightarrow>
               int (failure_streak (probe_outcomes t0 (ws @ [w]))) = CONSECUTIVE_FAILURES cfg)) \<and>
         (\<forall>calls rt em. run_probe w t = Inr (calls, True, rt, em) \<longrightarrow>
            consecutive_failures t' = 0 \<and> (status t = DOWN \<longrightarrow> status t' = UP))"
proof -
  have t': "t' = fst (feed cfg t0 (ws @ [w]))"
    using assms(3,4) by (simp add: feed_snoc)
  have streak: "consecutive_failures t' = int (failure_streak (probe_outcomes t0 (ws @ [w])))"
    unfolding t' by (rule failures_are_streak [OF assms(2)])
  have "below_threshold cfg t0"
    using assms(2) by (simp add: below_threshold_def)
  then have below: "below_threshold cfg t"
    unfolding assms(3) by (rule below_threshold_feed)
  show ?thesis
  proof (intro conjI impI allI)
    assume a: "status t \<noteq> DOWN \<and> status t' = DOWN"
    then have g: "consecutive_failures t' = consecutive_failures t + 1"
      "CONSECUTIVE_FAILURES cfg \<le> consecutive_failures t + 1"
      "\<exists>calls rt em. run_probe w t = Inr (calls, False, rt, em)"
      using goes_down_step [of t cfg w] assms(4) by simp_all
    show "\<exists>calls rt em. run_probe w t = Inr (calls, False, rt, em)" by (rule g(3))
    show "consecutive_failures t' = int (failure_streak (probe_outcomes t0 (ws @ [w])))"
      by (rule streak)
    show "CONSECUTIVE_FAILURES cfg \<le> int (failure_streak (probe_outcomes t0 (ws @ [w])))"
      using g(1,2) streak by simp
    show "int (failure_streak (probe_outcomes t0 (ws @ [w]))) = CONSECUTIVE_FAILURES cfg"
      if "1 \<le> CONSECUTIVE_FAILURES cfg"
      using that a g(1,2) streak below by (auto simp add: below_threshold_def)
  next
    fix calls rt em
    assume "run_probe w t = Inr (calls, True, rt, em)"
    from success_step [OF this, of cfg]
    show "consecutive_failures t' = 0" and "status t = DOWN \<Longrightarrow> status t' = UP"
      using assms(4) by simp_all
  qed
qed

theorem down_at_threshold_up_on_success_witness:
  "status ping_target = UNKNOWN \<and> consecutive_failures ping_target = 0 \<and>
   failed_once 0 = fst (feed (CONFIG 30 False) ping_target [example_world False 0]) \<and>
   went_down 30 = target_after (check_task (CONFIG 30 False) (example_world False 30) (failed_once 0)) \<and>
   status (failed_once 0) \<noteq> DOWN \<and> status (went_down 30) = DOWN \<and>
   consecutive_failures (went_down 30) = 2 \<and>
   1 \<le> CONSECUTIVE_FAILURES (CONFIG 30 False) \<and>
   int (failure_streak (probe_outcomes ping_target [example_world False 0, example_world False 30]))
     = CONSECUTIVE_FAILURES (CONFIG 30 False) \<and>
   went_down 30 = fst (feed (CONFIG 30 False) ping_target [example_world False 0, example_world False 30]) \<and>
   recovered 60 = target_after (check_task (CONFIG 30 False) (example_world True 60) (went_down 30)) \<and>
   run_probe (example_world True 60) (went_down 30) = Inr ([PingCall ''51.75.90.145''], True, 12.5, []) \<and>
   status (went_down 30) = DOWN \<and> consecutive_failures (recovered 60) = 0 \<and>
   status (recovered 60) = UP"
proof -
  have a: "status ping_target = UNKNOWN" "consecutive_failures ping_target = 0"
    by (simp_all add: example_defs)
  have b: "failed_once 0 = fst (feed (CONFIG 30 False) ping_target [example_world False 0])"
    "went_down 30 = target_after (check_task (CONFIG 30 False) (example_world False 30) (failed_once 0))"
    "went_down 30 = fst (feed (CONFIG 30 False) ping_target [example_world False 0, example_world False 30])"
    "recovered 60 = target_after (check_task (CONFIG 30 False) (example_world True 60) (went_down 30))"
    by (simp_all add: step_simps)
  have c: "run_probe (example_world True 60) (went_down 30) = Inr ([PingCall ''51.75.90.145''], True, 12.5, [])"
    by (simp add: run_probe_def check_ping_def example_defs run_defs)
  have d: "status (failed_once 0) \<noteq> DOWN" "status (went_down 30) = DOWN"
    "consecutive_failures (went_down 30) = 2" "1 \<le> CONSECUTIVE_FAILURES (CONFIG 30 False)"
    "consecutive_failures (recovered 60) = 0" "status (recovered 60) = UP"
    by (simp_all add: example_defs run_defs)
  show ?thesis
    using down_at_threshold_up_on_success [OF a b(1) b(2)]
      down_at_threshold_up_on_success [OF a b(3) b(4)] a b c d
    by simp
qed

text \<open>
  C4. In the alerts sent for one target over any sequence of checks, no two neighbours are
  of the same kind: between two Down alerts there is a Recovered alert and between two
  Recovered alerts a Down alert. One check sends at most one alert, and only when it moves
  the target into or out of Down.
\<close>

theorem alerts_alternate:
  assumes "ALERT_ON_RECOVERY cfg"
  shows "alternating (map alert_is_down (snd (feed cfg t ws))) \<and>
         length (alerts (check_task cfg w u)) \<le> 1 \<and>
         (alerts (check_task cfg w u) \<noteq> [] \<longrightarrow>
            (status u = DOWN) \<noteq> (status (target_after (check_task cfg w u)) = DOWN))"
proof -
  have "length (map alert_is_down (alerts (check_task cfg w u))) \<le> 1"
    by (simp only: step_flags [OF assms]) simp
  moreover have "map alert_is_down (alerts (check_task cfg w u)) \<noteq> [] \<longrightarrow>
      (status u = DOWN) \<noteq> (status (target_after (check_task cfg w u)) = DOWN)"
    by (simp only: step_flags [OF assms]) (simp split: if_splits)
  ultimately show ?thesis
    using alternating_feed [OF assms, of t ws] by simp
qed

theorem alerts_alternate_witness:
  "ALERT_ON_RECOVERY (CONFIG 30 False) \<and>
   map alert_is_down (snd (feed (CONFIG 30 False) ping_target
     [example_world False 0, example_world False 30, example_world True 60])) = [True, False] \<and>
   alternating (map alert_is_down (snd (feed (CONFIG 30 False) ping_target
     [example_world False 0, example_world False 30, example_world True 60]))) \<and>
   alerts (check_task (CONFIG 30 False) (example_world True 90) (went_down 30)) \<noteq> [] \<and>
   status (went_down 30) = DOWN \<and>
   status (target_after (check_task (CONFIG 30 False) (example_world True 90) (went_down 30)))
     \<noteq> DOWN"
  using alerts_alternate [of "CONFIG 30 False" ping_target
      "[example_world False 0, example_world False 30, example_world True 60]"
      "example_world True 90" "went_down 30"]
  by (simp add: example_simps)

text \<open>
  C5. One check changes \<open>last_status_change\<close> only when it moves the target to Down (from
  Unknown or Up) or from Down to Up; a check that leaves the status as it was leaves
  \<open>last_status_change\<close> as it was.
\<close>

theorem last_status_change_frame:
  "(last_status_change (target_after (check_task cfg w t)) \<noteq> last_status_change t \<longrightarrow>
      (status t \<noteq> DOWN \<and> status (target_after (check_task cfg w t)) = DOWN) \<or>
      (status t = DOWN \<and> status (target_after (check_task cfg w t)) = UP)) \<and>
   (status (target_after (check_task cfg w t)) = status t \<longrightarrow>
      last_status_change (target_after (check_task cfg w t)) = last_status_change t)"
  by (auto simp add: check_task_unfold status_apply_result change_apply_result
      split: sum.splits prod.splits if_splits)

theorem last_status_change_frame_witness:
  "last_status_change (target_after (check_task (CONFIG 30 False) (example_world True 90) (went_down 30)))
     \<noteq> last_status_change (went_down 30) \<and>
   status (went_down 30) = DOWN \<and>
   status (target_after (check_task (CONFIG 30 False) (example_world True 90) (went_down 30))) = UP \<and>
   status (target_after (check_task (CONFIG 30 False) (example_world False 90) (went_down 30)))
     = status (went_down 30) \<and>
   last_status_change (target_after (check_task (CONFIG 30 False) (example_world False 90) (went_down 30)))
     = last_status_change (went_down 30)"
  using last_status_change_frame [of "CONFIG 30 False" "example_world True 90" "went_down 30"]
    last_status_change_frame [of "CONFIG 30 False" "example_world False 90" "went_down 30"]
  by (simp add: example_simps)

section \<open>Run-once mode\<close>

text \<open>
  C6. In run-once mode \<^verbatim>\<open>start\<close> returns after exactly one round, in which every target
  is checked once; it then sends the status report once if some target is Down after the
  round, and not at all otherwise.
\<close>

theorem run_once_reports_once:
  assumes "RUN_ONCE cfg"
  shows "run_ending (start cfg ws rounds now targets) = Returned \<and>
         run_rounds (start cfg ws rounds now targets) = [run_checks cfg ws targets] \<and>
         length (run_checks cfg ws targets) = length targets \<and>
         (\<forall>i<length targets. run_checks cfg ws targets ! i = check_task cfg (ws i) (targets ! i)) \<and>
         run_targets (start cfg ws rounds now targets) =
           map target_after (run_checks cfg ws targets) \<and>
         filter is_report (run_sent (start cfg ws rounds now targets)) =
           (if \<exists>t\<in>set (run_targets (start cfg ws rounds now targets)). status t = DOWN
            then [ReportMsg (send_status_report now (run_targets (start cfg ws rounds now targets)))]
            else [])"
proof -
  have "filter is_report (run_sent (start cfg ws rounds now targets)) =
           (if \<exists>t\<in>set (run_targets (start cfg ws rounds now targets)). status t = DOWN
            then [ReportMsg (send_status_report now (run_targets (start cfg ws rounds now targets)))]
            else [])"
    using assms
    by (simp add: start_def Let_def no_report_among_alerts filter_empty_conv)
  moreover have "\<forall>i<length targets. run_checks cfg ws targets ! i = check_task cfg (ws i) (targets ! i)"
    by (simp add: run_checks_def run_checks_from_nth)
  moreover have "length (run_checks cfg ws targets) = length targets"
    by (simp add: run_checks_def run_checks_from_length)
  ultimately show ?thesis
    using assms by (simp add: start_def Let_def)
qed

theorem run_once_reports_once_witness:
  "RUN_ONCE (CONFIG 30 True) \<and>
   (1::nat) < length [ping_target, failed_once 0] \<and>
   run_checks (CONFIG 30 True) one_down [ping_target, failed_once 0] ! 1 =
     check_task (CONFIG 30 True) (one_down 1) ([ping_target, failed_once 0] ! 1) \<and>
   map status (run_targets (start (CONFIG 30 True) one_down [] 31 [ping_target, failed_once 0]))
     = [UP, DOWN] \<and>
   length (filter is_report
     (run_sent (start (CONFIG 30 True) one_down [] 31 [ping_target, failed_once 0]))) = 1 \<and>
   map status (run_targets (start (CONFIG 30 True) all_up [] 31 [ping_target, went_down 0]))
     = [UP, UP] \<and>
   length (filter is_report
     (run_sent (start (CONFIG 30 True) all_up [] 31 [ping_target, went_down 0]))) = 0"
  using run_once_reports_once [of "CONFIG 30 True" one_down "[]" 31 "[ping_target, failed_once 0]"]
    run_once_reports_once [of "CONFIG 30 True" all_up "[]" 31 "[ping_target, went_down 0]"]
  by (simp add: run_once_example example_simps one_down_def)

section \<open>The order and the counts of the status report\<close>

text \<open>
  C7. In the status report no Up target stands before a Down target, the targets of one
  status (Down, or Up) are in ascending order of their names, the report lists every
  target, and the two counts of the head are the numbers of Up and of Down targets.
\<close>

theorem status_report_order_and_counts:
  "(\<forall>i j. i < j \<and> j < length (report_lines (send_status_report now targets)) \<longrightarrow>
      \<not> (line_status (report_lines (send_status_report now targets) ! i) = UP \<and>
         line_status (report_lines (send_status_report now targets) ! j) = DOWN) \<and>
      (line_status (report_lines (send_status_report now targets) ! i) =
         line_status (report_lines (send_status_report now targets) ! j) \<and>
       line_status (report_lines (send_status_report now targets) ! i) \<in> {UP, DOWN} \<longrightarrow>
         line_name (report_lines (send_status_report now targets) ! i) \<le>
         line_name (report_lines (send_status_report now targets) ! j))) \<and>
   mset (report_lines (send_status_report now targets)) = mset (map format_line targets) \<and>
   up_count (send_status_report now targets) = length (filter (\<lambda>t. status t = UP) targets) \<and>
   down_count (send_status_report now targets) = length (filter (\<lambda>t. status t = DOWN) targets) \<and>
   up_count (send_status_report now targets) =
     length (filter (\<lambda>l. line_status l = UP) (report_lines (send_status_report now targets))) \<and>
   down_count (send_status_report now targets) =
     length (filter (\<lambda>l. line_status l = DOWN) (report_lines (send_status_report now targets)))"
proof -
  have order: "\<not> (line_status (report_lines (send_status_report now targets) ! i) = UP \<and>
         line_status (report_lines (send_status_report now targets) ! j) = DOWN) \<and>
      (line_status (report_lines (send_status_report now targets) ! i) =
         line_status (report_lines (send_status_report now targets) ! j) \<and>
       line_status (report_lines (send_status_report now targets) ! i) \<in> {UP, DOWN} \<longrightarrow>
         line_name (report_lines (send_status_report now targets) ! i) \<le>
         line_name (report_lines (send_status_report now targets) ! j))"
    if "i < j" and "j < length (report_lines (send_status_report now targets))" for i j
  proof -
    have j: "j < length targets" and i: "i < length targets"
      using that by (simp_all add: report_lines_length)
    show ?thesis
      using report_pair_ordered [OF that(1) j, of]
      by (auto simp add: report_lines_nth i j report_key_le format_line_def)
  qed
  have perm: "mset (report_lines (send_status_report now targets)) = mset (map format_line targets)"
    by (simp add: send_status_report_def)
  have counts: "up_count (send_status_report now targets) = length (filter (\<lambda>t. status t = UP) targets)"
    "down_count (send_status_report now targets) = length (filter (\<lambda>t. status t = DOWN) targets)"
    by (simp_all add: send_status_report_def)
  show ?thesis
    using order perm counts by (simp only: count_lines) blast
qed

theorem status_report_order_and_counts_witness:
  "(1::nat) < 2 \<and>
   2 < length (report_lines (send_status_report 0
         [named ''A'' UP, named ''B'' DOWN, named ''C'' DOWN, named ''D'' UP])) \<and>
   map line_name (report_lines (send_status_report 0
         [named ''A'' UP, named ''B'' DOWN, named ''C'' DOWN, named ''D'' UP]))
     = [''B'', ''C'', ''A'', ''D''] \<and>
   map line_status (report_lines (send_status_report 0
         [named ''A'' UP, named ''B'' DOWN, named ''C'' DOWN, named ''D'' UP]))
     = [DOWN, DOWN, UP, UP] \<and>
   ''B'' \<le> ''C'' \<and> ''A'' \<le> ''D'' \<and>
   up_count (send_status_report 0
         [named ''A'' UP, named ''B'' DOWN, named ''C'' DOWN, named ''D'' UP]) = 2 \<and>
   down_count (send_status_report 0
         [named ''A'' UP, named ''B'' DOWN, named ''C'' DOWN, named ''D'' UP]) = 2"
  using status_report_order_and_counts
    [of 0 "[named ''A'' UP, named ''B'' DOWN, named ''C'' DOWN, named ''D'' UP]"]
  by (simp add: example_report)

text \<open>
  C10. Unknown targets are in the group of the Up targets: every target that is not Down
  comes after all Down targets, and the targets that are not Down are in ascending order of
  their names whatever their status. Unknown targets are in neither count, so the two counts
  and the number of Unknown targets add up to the number of targets.
\<close>

theorem unknown_targets_in_report:
  "(\<forall>i j. i < j \<and> j < length (report_lines (send_status_report now targets)) \<longrightarrow>
      (line_status (report_lines (send_status_report now targets) ! j) = DOWN \<longrightarrow>
         line_status (report_lines (send_status_report now targets) ! i) = DOWN) \<and>
      (line_status (report_lines (send_status_report now targets) ! i) \<noteq> DOWN \<and>
       line_status (report_lines (send_status_report now targets) ! j) \<noteq> DOWN \<longrightarrow>
         line_name (report_lines (send_status_report now targets) ! i) \<le>
         line_name (report_lines (send_status_report now targets) ! j))) \<and>
   up_count (send_status_report now targets) + down_count (send_status_report now targets) +
     length (filter (\<lambda>t. status t = UNKNOWN) targets) = length targets"
proof -
  have order: "(line_status (report_lines (send_status_report now targets) ! j) = DOWN \<longrightarrow>
         line_status (report_lines (send_status_report now targets) ! i) = DOWN) \<and>
      (line_status (report_lines (send_status_report now targets) ! i) \<noteq> DOWN \<and>
       line_status (report_lines (send_status_report now targets) ! j) \<noteq> DOWN \<longrightarrow>
         line_name (report_lines (send_status_report now targets) ! i) \<le>
         line_name (report_lines (send_status_report now targets) ! j))"
    if "i < j" and "j < length (report_lines (send_status_report now targets))" for i j
  proof -
    have j: "j < length targets" and i: "i < length targets"
      using that by (simp_all add: report_lines_length)
    show ?thesis
      using report_pair_ordered [OF that(1) j]
      by (auto simp add: report_lines_nth i j report_key_le format_line_def)
  qed
  have "up_count (send_status_report now targets) + down_count (send_status_report now targets) +
     length (filter (\<lambda>t. status t = UNKNOWN) targets) = length targets"
    using status_partition [of targets] by (simp add: send_status_report_def)
  with order show ?thesis by blast
qed

theorem unknown_targets_in_report_witness:
  "(1::nat) < 2 \<and>
   2 < length (report_lines (send_status_report 0
         [named ''A'' UP, named ''B'' UNKNOWN, named ''C'' DOWN, named ''D'' UP])) \<and>
   map line_name (report_lines (send_status_report 0
         [named ''A'' UP, named ''B'' UNKNOWN, named ''C'' DOWN, named ''D'' UP]))
     = [''C'', ''A'', ''B'', ''D''] \<and>
   map line_status (report_lines (send_status_report 0
         [named ''A'' UP, named ''B'' UNKNOWN, named ''C'' DOWN, named ''D'' UP]))
     = [DOWN, UP, UNKNOWN, UP] \<and>
   ''A'' \<le> ''B'' \<and> ''B'' \<le> ''D'' \<and>
   up_count (send_status_report 0
         [named ''A'' UP, named ''B'' UNKNOWN, named ''C'' DOWN, named ''D'' UP]) +
   down_count (send_status_report 0
         [named ''A'' UP, named ''B'' UNKNOWN, named ''C'' DOWN, named ''D'' UP]) = 3 \<and>
   length [named ''A'' UP, named ''B'' UNKNOWN, named ''C'' DOWN, named ''D'' UP] = 4"
  using unknown_targets_in_report
    [of 0 "[named ''A'' UP, named ''B'' UNKNOWN, named ''C'' DOWN, named ''D'' UP]"]
  by (simp add: example_report_unknown)

section \<open>Timeouts of the probers\<close>

text \<open>
  C8. Every prober answers a timeout with \<open>ok = False\<close> and a non-empty error text that
  names the timeout. Ping, TCP and HTTP do, each with an \<^verbatim>\<open>except asyncio.TimeoutError\<close>
  clause of its own. Docker and Systemd have only \<^verbatim>\<open>except Exception\<close> and return
  \<^verbatim>\<open>str(e)\<close>, which is empty for the exception that \<^verbatim>\<open>asyncio.wait_for\<close> raises.
\<close>

theorem docker_systemd_timeout_detail:
  "check_docker (timeout_world 0) ''btcpayserver'' = (False, 0, []) \<and>
   check_systemd (timeout_world 0) ''nginx'' = (False, 0, [])"
  by (simp add: check_docker_def check_systemd_def timeout_world_def wait_for_timeout_def)

section \<open>Targets of an unknown type\<close>

text \<open>
  C9. For a target whose type has none of the five substrings, \<^verbatim>\<open>check_target\<close> calls no
  prober and records a failure with response time 0 and an empty error text. From the
  initial state such a target counts one failure for each check and is Down, with one Down
  alert sent, as soon as the count reaches the threshold.
\<close>

theorem unknown_type_counts_as_failure:
  assumes "\<not> contains ''Ping'' (type t)" and "\<not> contains ''TCP'' (type t)"
    and "\<not> contains ''HTTP'' (type t)" and "\<not> contains ''Docker'' (type t)"
    and "\<not> contains ''Systemd'' (type t)"
  shows "(\<exists>c. check_target cfg w t = Inr c \<and> probes c = [] \<and>
            response_time (target_after c) = 0 \<and> error_message (target_after c) = [] \<and>
            consecutive_failures (target_after c) = consecutive_failures t + 1 \<and>
            (if status t \<noteq> DOWN \<and> CONSECUTIVE_FAILURES cfg \<le> consecutive_failures t + 1
             then status (target_after c) = DOWN \<and> map alert_is_down (alerts c) = [True]
             else status (target_after c) = status t \<and> alerts c = [])) \<and>
         (status t = UNKNOWN \<and> consecutive_failures t = 0 \<longrightarrow>
            consecutive_failures (fst (feed cfg t ws)) = int (length ws) \<and>
            status (fst (feed cfg t ws)) =
              (if ws \<noteq> [] \<and> CONSECUTIVE_FAILURES cfg \<le> int (length ws) then DOWN else UNKNOWN) \<and>
            map alert_is_down (snd (feed cfg t ws)) =
              (if ws \<noteq> [] \<and> CONSECUTIVE_FAILURES cfg \<le> int (length ws) then [True] else []))"
proof -
  have rp: "run_probe w' t = Inr ([], False, 0, [])" for w'
    by (rule run_probe_unknown_type [OF assms])
  have one: "\<exists>c. check_target cfg w t = Inr c \<and> probes c = [] \<and>
            response_time (target_after c) = 0 \<and> error_message (target_after c) = [] \<and>
            consecutive_failures (target_after c) = consecutive_failures t + 1 \<and>
            (if status t \<noteq> DOWN \<and> CONSECUTIVE_FAILURES cfg \<le> consecutive_failures t + 1
             then status (target_after c) = DOWN \<and> map alert_is_down (alerts c) = [True]
             else status (target_after c) = status t \<and> alerts c = [])"
    by (simp add: check_target_def rp apply_result_def Let_def send_alert_def)
  show ?thesis
    using one unknown_type_feed [OF rp, of cfg ws] by blast
qed

theorem unknown_type_counts_as_failure_witness:
  "\<not> contains ''Ping'' (type other_target) \<and> \<not> contains ''TCP'' (type other_target) \<and>
   \<not> contains ''HTTP'' (type other_target) \<and> \<not> contains ''Docker'' (type other_target) \<and>
   \<not> contains ''Systemd'' (type other_target) \<and>
   status other_target = UNKNOWN \<and> consecutive_failures other_target = 0 \<and>
   status other_target \<noteq> DOWN \<and>
   \<not> CONSECUTIVE_FAILURES (CONFIG 30 False) \<le> consecutive_failures other_target + 1 \<and>
   check_target (CONFIG 30 False) (example_world True 0) other_target =
     Inr \<lparr>target_after = other_target\<lparr>last_check := Some 0, consecutive_failures := 1\<rparr>,
          probes = [], alerts = []\<rparr> \<and>
   consecutive_failures (fst (feed (CONFIG 30 False) other_target
     [example_world True 0, example_world True 30])) = 2 \<and>
   status (fst (feed (CONFIG 30 False) other_target
     [example_world True 0, example_world True 30])) = DOWN \<and>
   map alert_is_down (snd (feed (CONFIG 30 False) other_target
     [example_world True 0, example_world True 30])) = [True]"
proof -
  have a: "\<not> contains ''Ping'' (type other_target)" "\<not> contains ''TCP'' (type other_target)"
    "\<not> contains ''HTTP'' (type other_target)" "\<not> contains ''Docker'' (type other_target)"
    "\<not> contains ''Systemd'' (type other_target)"
    by (simp_all add: example_defs)
  have b: "status other_target = UNKNOWN" "consecutive_failures other_target = 0"
    "CONSECUTIVE_FAILURES (CONFIG 30 False) = 2"
    by (simp_all add: example_defs)
  have c: "check_target (CONFIG 30 False) (example_world True 0) other_target =
     Inr \<lparr>target_after = other_target\<lparr>last_check := Some 0, consecutive_failures := 1\<rparr>,
          probes = [], alerts = []\<rparr>"
    by (simp add: check_defs example_defs)
  show ?thesis
    using unknown_type_counts_as_failure [OF a, of "CONFIG 30 False" "example_world True 0"
        "[example_world True 0, example_world True 30]"] a b c
    by simp
qed

end
